theory Spec2Isabelle
  imports Main
begin

section \<open>Arrays, errors and the object store\<close>

text \<open>
  An \<open>ndarray\<close> is its element type, its shape and its elements in C (row-major) order.
  Booleans are stored as \<open>0\<close>/\<open>1\<close>, integers as themselves (all integer element types are
  one kind, with unbounded values); for the other element types \<open>data\<close> holds the raw
  element words, which the program never interprets.
\<close>

datatype dtype = DBool | DInt | DFloat | DStr

record ndarray =
  dtype :: dtype
  shape :: "nat list"
  data :: "int list"

datatype error = TypeError | ValueError | MemoryError

text \<open>
  Arrays are objects: a reference is an index into the heap, \<open>ar.copy()\<close> allocates a
  new object at the end of it, and \<open>warn\<close> appends to the log of warnings.

  The world also says how long a new array can be: \<open>max_elems\<close> is the longest array of
  8-byte elements numpy accepts at all (a longer one is refused with a \<open>ValueError\<close>
  before any memory is asked for), \<open>free_elems\<close> the longest one the allocator can
  provide (a longer one is a \<open>MemoryError\<close>). Arrays no longer than the function's input
  (the copy, the label map, the mask), or one element longer, are taken to be allocated
  always.
\<close>

record world =
  heap :: "ndarray list"
  warnings :: "string list"
  max_elems :: int
  free_elems :: int

definition ndim :: "ndarray \<Rightarrow> nat" where
  "ndim a = length (shape a)"

definition copy :: "world \<Rightarrow> nat \<Rightarrow> nat \<times> world" where
  "copy w ar = (length (heap w), w\<lparr>heap := heap w @ [heap w ! ar]\<rparr>)"

definition warn :: "string \<Rightarrow> world \<Rightarrow> world" where
  "warn msg w = w\<lparr>warnings := warnings w @ [msg]\<rparr>"

text \<open>\<open>out[mask] = v\<close>: the object at \<open>out\<close> is written where the mask is set.\<close>

definition setitem_mask :: "nat \<Rightarrow> bool list \<Rightarrow> int \<Rightarrow> world \<Rightarrow> world" where
  "setitem_mask out msk v w =
     w\<lparr>heap := (heap w)[out := (heap w ! out)
          \<lparr>data := map2 (\<lambda>m x. if m then v else x) msk (data (heap w ! out))\<rparr>]\<rparr>"

section \<open>The library primitives the function calls\<close>

text \<open>
  \<open>numpy.bincount\<close>: the number of occurrences of each value \<open>0 .. max\<close>; the empty
  array has the empty histogram, and a negative value is a \<open>ValueError\<close>. The histogram
  is a new array of \<open>max + 1\<close> bins: with more bins than there are values plus one, it
  must fit the two limits of the world, and \<open>bincount\<close> fails with a \<open>ValueError\<close> when
  it is longer than numpy accepts, with a \<open>MemoryError\<close> when it cannot be allocated.
\<close>

definition bincount :: "int \<Rightarrow> int \<Rightarrow> int list \<Rightarrow> error + nat list" where
  "bincount max_el free_el xs =
     (if \<exists>x \<in> set xs. x < 0 then Inl ValueError
      else if xs = [] then Inr []
      else if int (length xs) + 1 < Max (set xs) + 1 \<and> max_el < Max (set xs) + 1
        then Inl ValueError
      else if int (length xs) + 1 < Max (set xs) + 1 \<and> free_el < Max (set xs) + 1
        then Inl MemoryError
      else Inr (map (\<lambda>v. count_list xs (int v)) [0..<nat (Max (set xs)) + 1]))"

text \<open>
  \<open>scipy.ndimage.generate_binary_structure rank connectivity\<close>: the offsets in
  \<open>{-1,0,1}^rank\<close> whose city-block distance from the centre is at most the
  connectivity (a connectivity below 1 counts as 1).
\<close>

definition generate_binary_structure :: "nat \<Rightarrow> int \<Rightarrow> int list list" where
  "generate_binary_structure rank connectivity =
     (let c = (if connectivity < 1 then 1 else connectivity)
      in filter (\<lambda>off. sum_list (map abs off) \<le> c) (List.n_lists rank [-1, 0, 1]))"

text \<open>The coordinates of a flat index, in C order.\<close>

fun unravel_index :: "nat list \<Rightarrow> nat \<Rightarrow> nat list" where
  "unravel_index [] p = []"
| "unravel_index (d # ds) p = (p div prod_list ds) # unravel_index ds (p mod prod_list ds)"

definition offset :: "nat list \<Rightarrow> nat \<Rightarrow> nat \<Rightarrow> int list" where
  "offset sh p q = map2 (\<lambda>a b. int b - int a) (unravel_index sh p) (unravel_index sh q)"

text \<open>
  Two foreground pixels are neighbours when the offset between them is in the
  structuring element; a connected component is a class of the closure of that relation.
\<close>

definition neighbours :: "int list list \<Rightarrow> nat list \<Rightarrow> bool list \<Rightarrow> (nat \<times> nat) list" where
  "neighbours selem sh xs =
     [(p, q). p \<leftarrow> [0..<length xs], q \<leftarrow> [0..<length xs],
              xs ! p \<and> xs ! q \<and> offset sh p q \<in> set selem]"

definition connected :: "int list list \<Rightarrow> nat list \<Rightarrow> bool list \<Rightarrow> nat \<Rightarrow> nat \<Rightarrow> bool" where
  "connected selem sh xs p q \<longleftrightarrow> (p, q) \<in> (set (neighbours selem sh xs))\<^sup>*"

definition component :: "int list list \<Rightarrow> nat list \<Rightarrow> bool list \<Rightarrow> nat \<Rightarrow> nat set" where
  "component selem sh xs p = {q. q < length xs \<and> xs ! q \<and> connected selem sh xs p q}"

text \<open>
  \<open>scipy.ndimage.label input structure\<close>: background is 0, and the components are
  numbered \<open>1, 2, ...\<close> in the C order of their first pixel. The component of a pixel is
  collected by flooding along the neighbour pairs until nothing new is reached; \<open>root\<close>
  is the first pixel of that component.
\<close>

definition successors :: "(nat \<times> nat) list \<Rightarrow> nat list \<Rightarrow> nat list" where
  "successors E vs = [q. (p, q) \<leftarrow> E, p \<in> set vs, q \<notin> set vs]"

function flood_fill :: "(nat \<times> nat) list \<Rightarrow> nat list \<Rightarrow> nat list" where
  "flood_fill E vs =
     (let new = successors E vs
      in if new = [] then vs else flood_fill E (vs @ remdups new))"
  by pat_completeness auto
termination
proof (relation "measure (\<lambda>(E, vs). card (snd ` set E - set vs))")
  show "wf (measure (\<lambda>(E, vs). card (snd ` set E - set vs)))"
    by simp
next
  fix E :: "(nat \<times> nat) list" and vs new :: "nat list"
  assume new: "new = successors E vs" and ne: "new \<noteq> []"
  then obtain q where q: "q \<in> set new"
    by (meson last_in_set)
  then have "q \<in> snd ` set E" "q \<notin> set vs"
    using new by (force simp: successors_def split: if_splits)+
  then have "snd ` set E - set (vs @ remdups new) \<subset> snd ` set E - set vs"
    using q by auto
  then have "card (snd ` set E - set (vs @ remdups new)) < card (snd ` set E - set vs)"
    by (intro psubset_card_mono) auto
  then show "((E, vs @ remdups new), (E, vs)) \<in> measure (\<lambda>(E, vs). card (snd ` set E - set vs))"
    by simp
qed

definition root :: "(nat \<times> nat) list \<Rightarrow> nat \<Rightarrow> nat" where
  "root E p = fold min (flood_fill E [p]) p"

definition ndi_label :: "int list list \<Rightarrow> nat list \<Rightarrow> bool list \<Rightarrow> int list" where
  "ndi_label selem sh xs =
     (let E = neighbours selem sh xs;
          rt = map (root E) [0..<length xs];
          roots = filter (\<lambda>r. xs ! r \<and> rt ! r = r) [0..<length xs]
      in map (\<lambda>p. if xs ! p then 1 + int (length (filter (\<lambda>r. r < rt ! p) roots)) else 0)
             [0..<length xs])"

section \<open>The program\<close>

definition check_dtype_supported :: "ndarray \<Rightarrow> error + unit" where
  "check_dtype_supported ar =
     (if \<not> (dtype ar = DBool \<or> dtype ar = DInt) then Inl TypeError else Inr ())"

text \<open>The foreground of an array: its non-zero elements (\<open>True\<close>, for a boolean array).\<close>

definition foreground :: "ndarray \<Rightarrow> bool list" where
  "foreground a = map (\<lambda>x. x \<noteq> 0) (data a)"

text \<open>
  The label map: computed from the input for a boolean array, the working buffer itself
  for an integer one.
\<close>

definition label_map :: "world \<Rightarrow> nat \<Rightarrow> nat \<Rightarrow> int \<Rightarrow> int list" where
  "label_map w ar out connectivity =
     (if dtype (heap w ! out) = DBool
      then ndi_label (generate_binary_structure (ndim (heap w ! ar)) connectivity)
             (shape (heap w ! ar)) (foreground (heap w ! ar))
      else data (heap w ! out))"

definition one_label_warning :: string where
  "one_label_warning =
     ''Only one label was provided to `remove_small_objects`. Did you mean to use a boolean array?''"

text \<open>
  Lines 69 to 91 of the source: histogram, mask and masked assignment. A \<open>ValueError\<close>
  of \<open>bincount\<close> is caught and raised again as a \<open>ValueError\<close> (with the message about
  negative labels); any other error passes through.
\<close>

definition filter_labels :: "world \<Rightarrow> nat \<Rightarrow> nat \<Rightarrow> int \<Rightarrow> int \<Rightarrow> (error + nat) \<times> world" where
  "filter_labels w ar out max_size connectivity =
     (let ccs = label_map w ar out connectivity
      in (case bincount (max_elems w) (free_elems w) ccs of
            Inl e \<Rightarrow> (if e = ValueError then (Inl ValueError, w) else (Inl e, w))
          | Inr component_sizes \<Rightarrow>
              (let w' = (if length component_sizes = 2 then warn one_label_warning w else w);
                   too_big = map (\<lambda>c. int c > max_size) component_sizes;
                   too_big_mask = map (\<lambda>l. too_big ! nat l) ccs
               in (Inr out, setitem_mask out too_big_mask 0 w'))))"

definition remove_big_objects ::
  "world \<Rightarrow> nat \<Rightarrow> int \<Rightarrow> int \<Rightarrow> bool \<Rightarrow> (error + nat) \<times> world" where
  "remove_big_objects w ar max_size connectivity in_place =
     (case check_dtype_supported (heap w ! ar) of
        Inl e \<Rightarrow> (Inl e, w)
      | Inr _ \<Rightarrow>
          (let (out, w1) = (if in_place then (ar, w) else copy w ar)
           in if max_size = 0 then (Inr out, w1)
              else filter_labels w1 ar out max_size connectivity))"

text \<open>
  The same function with the early return at \<open>max_size == 0\<close> taken out: every call goes
  through labelling, histogram and mask. It is the program the early return is compared
  with.
\<close>

definition remove_big_objects_no_shortcut ::
  "world \<Rightarrow> nat \<Rightarrow> int \<Rightarrow> int \<Rightarrow> bool \<Rightarrow> (error + nat) \<times> world" where
  "remove_big_objects_no_shortcut w ar max_size connectivity in_place =
     (case check_dtype_supported (heap w ! ar) of
        Inl e \<Rightarrow> (Inl e, w)
      | Inr _ \<Rightarrow>
          (let (out, w1) = (if in_place then (ar, w) else copy w ar)
           in filter_labels w1 ar out max_size connectivity))"

text \<open>
  The combined effect of lines 87 to 89 on the elements: with histogram \<open>h\<close> and label map
  \<open>ccs\<close>, an element is zeroed when the count of its label exceeds \<open>m\<close>. It is what
  \<open>filter_labels\<close> writes, as \<open>filter_labels_Inr\<close> shows.
\<close>

definition sieve :: "nat list \<Rightarrow> int \<Rightarrow> int list \<Rightarrow> int list \<Rightarrow> int list" where
  "sieve h m ccs xs = map2 (\<lambda>l x. if m < int (h ! nat l) then 0 else x) ccs xs"

section \<open>Example arrays\<close>

text \<open>
  The boolean image of the docstring, a labelled image, one with a negative label, a
  float image; a labelled image with the label \<open>2^62\<close>. The limits are those of a 64-bit
  numpy (\<open>2^60 - 1\<close> elements of 8 bytes) with room for \<open>2^30\<close> elements.
\<close>

definition bool_image :: ndarray where
  "bool_image = \<lparr>dtype = DBool, shape = [3, 5],
                  data = [0, 0, 0, 1, 0,  1, 1, 1, 0, 0,  1, 1, 1, 0, 1]\<rparr>"

definition int_image :: ndarray where
  "int_image = \<lparr>dtype = DInt, shape = [2, 3], data = [1, 1, 2,  0, 3, 3]\<rparr>"

definition negative_image :: ndarray where
  "negative_image = \<lparr>dtype = DInt, shape = [3], data = [1, -1, 2]\<rparr>"

definition float_image :: ndarray where
  "float_image = \<lparr>dtype = DFloat, shape = [2], data = [4607182418800017408, 0]\<rparr>"

definition example_world :: world where
  "example_world =
     \<lparr>heap = [bool_image, int_image, negative_image, float_image],
      warnings = [], max_elems = 1152921504606846975, free_elems = 1073741824\<rparr>"

definition huge_label_image :: ndarray where
  "huge_label_image = \<lparr>dtype = DInt, shape = [2], data = [1, 4611686018427387904]\<rparr>"

definition huge_label_world :: world where
  "huge_label_world =
     \<lparr>heap = [huge_label_image],
      warnings = [], max_elems = 1152921504606846975, free_elems = 1073741824\<rparr>"

section \<open>Properties of the primitives\<close>

lemma length_ndi_label [simp]: "length (ndi_label selem sh xs) = length xs"
  by (simp add: ndi_label_def Let_def)

lemma ndi_label_nonneg: "x \<in> set (ndi_label selem sh xs) \<Longrightarrow> 0 \<le> x"
  by (auto simp: ndi_label_def Let_def)

lemma bincount_Inr:
  "bincount me fe xs = Inr h \<Longrightarrow> l \<in> set xs \<Longrightarrow>
   nat l < length h \<and> h ! nat l = count_list xs l"
proof -
  assume b: "bincount me fe xs = Inr h" and l: "l \<in> set xs"
  then have nn: "\<forall>x \<in> set xs. 0 \<le> x"
    by (auto simp: bincount_def split: if_splits)
  have ne: "xs \<noteq> []" using l by auto
  have h: "h = map (\<lambda>v. count_list xs (int v)) [0..<nat (Max (set xs)) + 1]"
    using b nn ne by (auto simp: bincount_def split: if_splits)
  have "l \<le> Max (set xs)" using l by simp
  then have lt: "nat l < nat (Max (set xs)) + 1" by linarith
  have "0 \<le> l" using nn l by blast
  then show ?thesis using lt unfolding h by (simp del: upt_Suc)
qed

text \<open>
  \<open>bincount\<close> returns when no value is negative and every value is at most the number
  of values or below both limits.
\<close>

lemma bincount_total:
  assumes "\<forall>x \<in> set xs. 0 \<le> x \<and> (x \<le> int (length xs) \<or> (x < me \<and> x < fe))"
  shows "\<exists>h. bincount me fe xs = Inr h"
proof (cases "xs = []")
  case True
  then show ?thesis by (simp add: bincount_def)
next
  case False
  then have "Max (set xs) \<in> set xs"
    by (intro Max_in) auto
  then have M: "Max (set xs) \<le> int (length xs) \<or> (Max (set xs) < me \<and> Max (set xs) < fe)"
    using assms by blast
  have nn: "\<not> (\<exists>x \<in> set xs. x < 0)"
    using assms by fastforce
  have v: "\<not> (int (length xs) + 1 < Max (set xs) + 1 \<and> me < Max (set xs) + 1)"
    using M by linarith
  have m: "\<not> (int (length xs) + 1 < Max (set xs) + 1 \<and> fe < Max (set xs) + 1)"
    using M by linarith
  show ?thesis
    unfolding bincount_def using nn False v m by simp
qed

lemma bincount_error:
  "bincount me fe xs = Inl e \<Longrightarrow> e = ValueError \<or> e = MemoryError"
  by (auto simp: bincount_def split: if_splits)

lemma bincount_negative:
  "\<exists>x \<in> set xs. x < 0 \<Longrightarrow> bincount me fe xs = Inl ValueError"
  by (simp add: bincount_def)

lemma bincount_too_long:
  assumes "\<forall>x \<in> set xs. 0 \<le> x" and "x \<in> set xs"
    and "int (length xs) < x" and "me \<le> x"
  shows "bincount me fe xs = Inl ValueError"
proof -
  have "x \<le> Max (set xs)"
    using assms(2) by simp
  then have "int (length xs) + 1 < Max (set xs) + 1 \<and> me < Max (set xs) + 1"
    using assms(3,4) by linarith
  moreover have "\<not> (\<exists>x \<in> set xs. x < 0)"
    using assms(1) by fastforce
  moreover have "xs \<noteq> []"
    using assms(2) by auto
  ultimately show ?thesis
    unfolding bincount_def by simp
qed

lemma copy_simps [simp]:
  "fst (copy w ar) = length (heap w)"
  "heap (snd (copy w ar)) = heap w @ [heap w ! ar]"
  "warnings (snd (copy w ar)) = warnings w"
  "max_elems (snd (copy w ar)) = max_elems w"
  "free_elems (snd (copy w ar)) = free_elems w"
  by (simp_all add: copy_def)

lemma length_label_map: "length (label_map w ar ar c) = length (data (heap w ! ar))"
  by (simp add: label_map_def foreground_def)

lemma label_map_copy:
  "ar < length (heap w) \<Longrightarrow>
   label_map (snd (copy w ar)) ar (length (heap w)) c = label_map w ar ar c"
  by (simp add: label_map_def nth_append)

lemma label_map_nonneg:
  "dtype (heap w ! ar) = DBool \<Longrightarrow> x \<in> set (label_map w ar ar c) \<Longrightarrow> 0 \<le> x"
  by (auto simp: label_map_def dest: ndi_label_nonneg)

lemma label_map_int: "dtype (heap w ! ar) \<noteq> DBool \<Longrightarrow> label_map w ar ar c = data (heap w ! ar)"
  by (simp add: label_map_def)

lemma filter_labels_Inl:
  "\<exists>x \<in> set (label_map w ar out c). x < 0 \<Longrightarrow> filter_labels w ar out m c = (Inl ValueError, w)"
  by (simp add: filter_labels_def Let_def bincount_negative)

lemma filter_labels_error:
  "bincount (max_elems w) (free_elems w) (label_map w ar out c) = Inl e \<Longrightarrow>
   filter_labels w ar out m c = (Inl e, w)"
  by (simp add: filter_labels_def Let_def)

lemma filter_labels_Inr:
  assumes "bincount (max_elems w) (free_elems w) (label_map w ar out c) = Inr h"
  shows "fst (filter_labels w ar out m c) = Inr out"
    and "heap (snd (filter_labels w ar out m c)) =
           (heap w)[out := (heap w ! out)
              \<lparr>data := sieve h m (label_map w ar out c) (data (heap w ! out))\<rparr>]"
proof -
  let ?ccs = "label_map w ar out c"
  have mask: "map (\<lambda>l. map (\<lambda>c. m < int c) h ! nat l) ?ccs = map (\<lambda>l. m < int (h ! nat l)) ?ccs"
    using bincount_Inr [OF assms] by simp
  have z: "map2 (\<lambda>b x. if b then 0 else x) (map (\<lambda>l. m < int (h ! nat l)) ?ccs) xs
           = sieve h m ?ccs xs" for xs
    by (simp add: sieve_def zip_map1 case_prod_unfold)
  show "fst (filter_labels w ar out m c) = Inr out"
    using assms by (simp add: filter_labels_def Let_def)
  show "heap (snd (filter_labels w ar out m c)) =
           (heap w)[out := (heap w ! out)
              \<lparr>data := sieve h m ?ccs (data (heap w ! out))\<rparr>]"
    using assms by (simp add: filter_labels_def Let_def setitem_mask_def warn_def mask z)
qed

lemma rbo_unsupported:
  "\<not> (dtype (heap w ! ar) = DBool \<or> dtype (heap w ! ar) = DInt) \<Longrightarrow>
   remove_big_objects w ar m c ip = (Inl TypeError, w)"
  by (simp add: remove_big_objects_def check_dtype_supported_def)

lemma rbo_supported:
  "dtype (heap w ! ar) = DBool \<or> dtype (heap w ! ar) = DInt \<Longrightarrow>
   remove_big_objects w ar m c ip =
     (if ip then (if m = 0 then (Inr ar, w) else filter_labels w ar ar m c)
      else (if m = 0 then (Inr (length (heap w)), snd (copy w ar))
            else filter_labels (snd (copy w ar)) ar (length (heap w)) m c))"
  by (auto simp: remove_big_objects_def check_dtype_supported_def copy_def)

section \<open>The paths through the function\<close>

lemma length_sieve: "length ccs = length xs \<Longrightarrow> length (sieve h m ccs xs) = length xs"
  by (simp add: sieve_def)

lemma nth_sieve:
  "length ccs = length xs \<Longrightarrow> i < length xs \<Longrightarrow>
   sieve h m ccs xs ! i = (if m < int (h ! nat (ccs ! i)) then 0 else xs ! i)"
  by (simp add: sieve_def)

lemma rbo_shortcut:
  assumes "dtype (heap w ! ar) = DBool \<or> dtype (heap w ! ar) = DInt"
  shows "remove_big_objects w ar 0 c ip =
           (Inr (if ip then ar else length (heap w)), if ip then w else snd (copy w ar))"
  using assms by (simp add: rbo_supported)

lemma rbo_value_error:
  assumes "ar < length (heap w)"
    and "dtype (heap w ! ar) = DBool \<or> dtype (heap w ! ar) = DInt"
    and "m \<noteq> 0"
    and "\<exists>x \<in> set (label_map w ar ar c). x < 0"
  shows "remove_big_objects w ar m c ip = (Inl ValueError, if ip then w else snd (copy w ar))"
  using assms by (simp add: rbo_supported filter_labels_Inl label_map_copy)

lemma rbo_error:
  assumes "ar < length (heap w)"
    and "dtype (heap w ! ar) = DBool \<or> dtype (heap w ! ar) = DInt"
    and "m \<noteq> 0"
    and "bincount (max_elems w) (free_elems w) (label_map w ar ar c) = Inl e"
  shows "remove_big_objects w ar m c ip = (Inl e, if ip then w else snd (copy w ar))"
  using assms by (simp add: rbo_supported filter_labels_error label_map_copy)

lemma rbo_filtered:
  assumes "ar < length (heap w)"
    and "dtype (heap w ! ar) = DBool \<or> dtype (heap w ! ar) = DInt"
    and "m \<noteq> 0"
    and "bincount (max_elems w) (free_elems w) (label_map w ar ar c) = Inr h"
  shows "fst (remove_big_objects w ar m c ip) = Inr (if ip then ar else length (heap w))"
    and "heap (snd (remove_big_objects w ar m c ip)) =
           (if ip then (heap w)[ar := (heap w ! ar)
                          \<lparr>data := sieve h m (label_map w ar ar c) (data (heap w ! ar))\<rparr>]
            else heap w @ [(heap w ! ar)
                          \<lparr>data := sieve h m (label_map w ar ar c) (data (heap w ! ar))\<rparr>])"
proof -
  have b: "bincount (max_elems (snd (copy w ar))) (free_elems (snd (copy w ar)))
             (label_map (snd (copy w ar)) ar (length (heap w)) c) = Inr h"
    using assms by (simp add: label_map_copy)
  show "fst (remove_big_objects w ar m c ip) = Inr (if ip then ar else length (heap w))"
    using assms filter_labels_Inr(1) [OF assms(4)] filter_labels_Inr(1) [OF b]
    by (simp add: rbo_supported)
  show "heap (snd (remove_big_objects w ar m c ip)) =
           (if ip then (heap w)[ar := (heap w ! ar)
                          \<lparr>data := sieve h m (label_map w ar ar c) (data (heap w ! ar))\<rparr>]
            else heap w @ [(heap w ! ar)
                          \<lparr>data := sieve h m (label_map w ar ar c) (data (heap w ! ar))\<rparr>])"
    using assms filter_labels_Inr(2) [OF assms(4)] filter_labels_Inr(2) [OF b]
    by (simp add: rbo_supported label_map_copy)
qed

text \<open>What a returned array looks like, whichever path returned it.\<close>

lemma rbo_returns:
  assumes ar: "ar < length (heap w)"
    and r: "remove_big_objects w ar m c ip = (Inr out, w')"
  shows "out = (if ip then ar else length (heap w))"
    and "length (heap w') = (if ip then length (heap w) else Suc (length (heap w)))"
    and "\<forall>b < length (heap w). b \<noteq> out \<longrightarrow> heap w' ! b = heap w ! b"
    and "dtype (heap w' ! out) = dtype (heap w ! ar)"
    and "shape (heap w' ! out) = shape (heap w ! ar)"
    and "length (data (heap w' ! out)) = length (data (heap w ! ar))"
    and "\<forall>i < length (data (heap w ! ar)).
           data (heap w' ! out) ! i = data (heap w ! ar) ! i \<or> data (heap w' ! out) ! i = 0"
proof -
  have sup: "dtype (heap w ! ar) = DBool \<or> dtype (heap w ! ar) = DInt"
    using r rbo_unsupported [of w ar m c ip] by auto
  consider (zero) "m = 0"
    | (err) e where "m \<noteq> 0"
        "bincount (max_elems w) (free_elems w) (label_map w ar ar c) = Inl e"
    | (ok) h where "m \<noteq> 0"
        "bincount (max_elems w) (free_elems w) (label_map w ar ar c) = Inr h"
    by (cases "m = 0"; cases "bincount (max_elems w) (free_elems w) (label_map w ar ar c)") auto
  then have
    "out = (if ip then ar else length (heap w)) \<and>
     length (heap w') = (if ip then length (heap w) else Suc (length (heap w))) \<and>
     (\<forall>b < length (heap w). b \<noteq> out \<longrightarrow> heap w' ! b = heap w ! b) \<and>
     dtype (heap w' ! out) = dtype (heap w ! ar) \<and>
     shape (heap w' ! out) = shape (heap w ! ar) \<and>
     length (data (heap w' ! out)) = length (data (heap w ! ar)) \<and>
     (\<forall>i < length (data (heap w ! ar)).
           data (heap w' ! out) ! i = data (heap w ! ar) ! i \<or> data (heap w' ! out) ! i = 0)"
  proof cases
    case zero
    then show ?thesis
      using r rbo_shortcut [OF sup, of c ip] ar by (auto simp: nth_append)
  next
    case err
    then show ?thesis
      using r rbo_error [OF ar sup err, of ip] by simp
  next
    case ok
    have len: "length (label_map w ar ar c) = length (data (heap w ! ar))"
      by (rule length_label_map)
    show ?thesis
      using r rbo_filtered [OF ar sup ok, of ip] ar
      by (auto simp: nth_append nth_list_update length_sieve [OF len] nth_sieve [OF len])
  qed
  then show "out = (if ip then ar else length (heap w))"
    and "length (heap w') = (if ip then length (heap w) else Suc (length (heap w)))"
    and "\<forall>b < length (heap w). b \<noteq> out \<longrightarrow> heap w' ! b = heap w ! b"
    and "dtype (heap w' ! out) = dtype (heap w ! ar)"
    and "shape (heap w' ! out) = shape (heap w ! ar)"
    and "length (data (heap w' ! out)) = length (data (heap w ! ar))"
    and "\<forall>i < length (data (heap w ! ar)).
           data (heap w' ! out) ! i = data (heap w ! ar) ! i \<or> data (heap w' ! out) ! i = 0"
    by blast+
qed

section \<open>Connected components and the label map\<close>

subsection \<open>Flooding computes the closure\<close>

lemma set_successors:
  "set (successors E vs) = {q. q \<notin> set vs \<and> (\<exists>p \<in> set vs. (p, q) \<in> set E)}"
  by (auto simp: successors_def split: if_splits)

declare flood_fill.simps [simp del]

lemma flood_fill_closure:
  "p \<in> set vs \<Longrightarrow> set vs \<subseteq> (set E)\<^sup>* `` {p} \<Longrightarrow> set (flood_fill E vs) = (set E)\<^sup>* `` {p}"
proof (induction E vs rule: flood_fill.induct)
  case (1 E vs)
  show ?case
  proof (cases "successors E vs = []")
    case True
    then have closed: "\<And>a b. a \<in> set vs \<Longrightarrow> (a, b) \<in> set E \<Longrightarrow> b \<in> set vs"
      using set_successors [of E vs] by auto
    have "q \<in> set vs" if "(p, q) \<in> (set E)\<^sup>*" for q
      using that by (induction rule: rtrancl_induct) (use "1.prems" closed in auto)
    then have "(set E)\<^sup>* `` {p} \<subseteq> set vs" by auto
    moreover have "flood_fill E vs = vs"
      using True by (subst flood_fill.simps) simp
    ultimately show ?thesis using "1.prems" by auto
  next
    case False
    have "set (vs @ remdups (successors E vs)) \<subseteq> (set E)\<^sup>* `` {p}"
      using "1.prems" set_successors [of E vs]
      by (auto intro: rtrancl_into_rtrancl)
    moreover have "p \<in> set (vs @ remdups (successors E vs))"
      using "1.prems" by simp
    ultimately have "set (flood_fill E (vs @ remdups (successors E vs))) = (set E)\<^sup>* `` {p}"
      using "1.IH" [OF refl False] by blast
    moreover have "flood_fill E vs = flood_fill E (vs @ remdups (successors E vs))"
      using False by (subst flood_fill.simps) (simp add: Let_def)
    ultimately show ?thesis by simp
  qed
qed

lemma set_flood_fill: "set (flood_fill E [p]) = (set E)\<^sup>* `` {p}"
  by (rule flood_fill_closure) auto

lemma root_Min: "root E p = Min ((set E)\<^sup>* `` {p})"
proof -
  have "fold min xs a = Min (insert a (set xs))" for xs and a :: nat
    using Min.set_eq_fold [of a xs] by simp
  then have "root E p = Min (insert p ((set E)\<^sup>* `` {p}))"
    by (simp add: root_def set_flood_fill)
  moreover have "insert p ((set E)\<^sup>* `` {p}) = (set E)\<^sup>* `` {p}"
    by auto
  ultimately show ?thesis by simp
qed

subsection \<open>The neighbour relation\<close>

lemma in_neighbours:
  "(p, q) \<in> set (neighbours selem sh xs) \<longleftrightarrow>
     p < length xs \<and> q < length xs \<and> xs ! p \<and> xs ! q \<and> offset sh p q \<in> set selem"
  by (auto simp: neighbours_def)

lemma length_unravel_index [simp]: "length (unravel_index sh p) = length sh"
  by (induction sh arbitrary: p) auto

lemma map2_diff_swap:
  "length as = length bs \<Longrightarrow>
   map2 (\<lambda>a b. int b - int a) bs as = map uminus (map2 (\<lambda>a b. int b - int a) as bs)"
  by (induction as bs rule: list_induct2) auto

lemma offset_swap: "offset sh q p = map uminus (offset sh p q)"
  unfolding offset_def by (rule map2_diff_swap) simp

lemma sum_abs_uminus: "sum_list (map (abs \<circ> uminus) off) = sum_list (map abs (off :: int list))"
  by (induction off) auto

lemma n_lists_uminus:
  "off \<in> set (List.n_lists rank [-1, 0, 1 :: int]) \<Longrightarrow>
   map uminus off \<in> set (List.n_lists rank [-1, 0, 1])"
  by (auto simp: set_n_lists)

lemma generate_binary_structure_sym:
  "off \<in> set (generate_binary_structure rank c) \<Longrightarrow>
   map uminus off \<in> set (generate_binary_structure rank c)"
  unfolding generate_binary_structure_def Let_def
  by (simp add: sum_abs_uminus n_lists_uminus)

lemma sym_neighbours:
  "sym (set (neighbours (generate_binary_structure rank c) sh xs))"
proof (rule symI)
  fix p q
  assume "(p, q) \<in> set (neighbours (generate_binary_structure rank c) sh xs)"
  then have pq: "p < length xs" "q < length xs" "xs ! p" "xs ! q"
    and off: "offset sh p q \<in> set (generate_binary_structure rank c)"
    by (simp_all add: in_neighbours)
  have "offset sh q p \<in> set (generate_binary_structure rank c)"
    using generate_binary_structure_sym [OF off] by (simp add: offset_swap [of sh q p])
  then show "(q, p) \<in> set (neighbours (generate_binary_structure rank c) sh xs)"
    using pq by (simp add: in_neighbours)
qed

subsection \<open>Components and their first pixels\<close>

lemma reach_foreground:
  assumes "(p, q) \<in> (set (neighbours selem sh xs))\<^sup>*" and "p < length xs" and "xs ! p"
  shows "q < length xs \<and> xs ! q"
  using assms by (induction rule: rtrancl_induct) (auto simp: in_neighbours)

lemma component_closure:
  "p < length xs \<Longrightarrow> xs ! p \<Longrightarrow>
   component selem sh xs p = (set (neighbours selem sh xs))\<^sup>* `` {p}"
  using reach_foreground [of p _ selem sh xs]
  by (auto simp: component_def connected_def)

lemma finite_closure: "finite ((set E)\<^sup>* `` {p})"
proof -
  have "(set E)\<^sup>* `` {p} \<subseteq> insert p (snd ` set E)"
  proof
    fix q assume "q \<in> (set E)\<^sup>* `` {p}"
    then have "(p, q) \<in> (set E)\<^sup>*" by simp
    then show "q \<in> insert p (snd ` set E)"
      by (cases rule: rtrancl.cases) force+
  qed
  then show ?thesis
    by (rule finite_subset) simp
qed

lemma root_reach: "(p, root E p) \<in> (set E)\<^sup>*"
proof -
  have "Min ((set E)\<^sup>* `` {p}) \<in> (set E)\<^sup>* `` {p}"
    by (rule Min_in [OF finite_closure]) auto
  then show ?thesis by (simp add: root_Min)
qed

lemma root_eq_iff:
  assumes "sym (set E)"
  shows "root E p = root E q \<longleftrightarrow> (p, q) \<in> (set E)\<^sup>*"
proof
  assume eq: "root E p = root E q"
  have "(root E q, q) \<in> (set E)\<^sup>*"
    using root_reach [of q E] sym_rtrancl [OF assms] by (auto dest: symD)
  then show "(p, q) \<in> (set E)\<^sup>*"
    using root_reach [of p E] eq by auto
next
  assume pq: "(p, q) \<in> (set E)\<^sup>*"
  then have qp: "(q, p) \<in> (set E)\<^sup>*"
    using sym_rtrancl [OF assms] by (auto dest: symD)
  have "(set E)\<^sup>* `` {p} = (set E)\<^sup>* `` {q}"
    using pq qp by (auto intro: rtrancl_trans)
  then show "root E p = root E q"
    by (simp add: root_Min)
qed

lemma root_idem: "sym (set E) \<Longrightarrow> root E (root E p) = root E p"
  using root_reach [of p E] sym_rtrancl [of "set E"]
  by (auto simp: root_eq_iff dest: symD)

subsection \<open>The numbering of the components\<close>

lemma length_filter_less_mono:
  fixes x y :: nat
  shows "x \<in> set xs \<Longrightarrow> x < y \<Longrightarrow>
         length (filter (\<lambda>z. z < x) xs) < length (filter (\<lambda>z. z < y) xs)"
proof (induction xs)
  case Nil
  then show ?case by simp
next
  case (Cons a xs)
  have le: "length (filter (\<lambda>z. z < x) xs) \<le> length (filter (\<lambda>z. z < y) xs)"
    using Cons.prems(2) by (induction xs) auto
  show ?case
  proof (cases "x \<in> set xs")
    case True
    then show ?thesis using Cons by auto
  next
    case False
    then have "a = x" using Cons.prems by auto
    then show ?thesis using le Cons.prems(2) by auto
  qed
qed

lemma rank_inj:
  fixes x y :: nat
  assumes "x \<in> set xs" and "y \<in> set xs"
    and "length (filter (\<lambda>z. z < x) xs) = length (filter (\<lambda>z. z < y) xs)"
  shows "x = y"
  using assms length_filter_less_mono [of x xs y] length_filter_less_mono [of y xs x]
  by (cases x y rule: linorder_cases) auto

lemma ndi_label_nth:
  assumes "p < length xs"
  shows "ndi_label selem sh xs ! p =
           (if xs ! p
            then 1 + int (length (filter (\<lambda>r. r < root (neighbours selem sh xs) p)
                   (filter (\<lambda>r. xs ! r \<and> root (neighbours selem sh xs) r = r) [0..<length xs])))
            else 0)"
proof -
  let ?E = "neighbours selem sh xs"
  have "filter (\<lambda>r. xs ! r \<and> map (root ?E) [0..<length xs] ! r = r) [0..<length xs]
        = filter (\<lambda>r. xs ! r \<and> root ?E r = r) [0..<length xs]"
    by (rule filter_cong) auto
  then show ?thesis
    using assms by (simp add: ndi_label_def Let_def)
qed

lemma ndi_label_zero_iff:
  "p < length xs \<Longrightarrow> ndi_label selem sh xs ! p = 0 \<longleftrightarrow> \<not> xs ! p"
  by (simp add: ndi_label_nth)

text \<open>No label is larger than the number of pixels.\<close>

lemma root_le: "root E p \<le> p"
  unfolding root_Min by (rule Min_le [OF finite_closure]) auto

lemma length_filter_below: "length (filter (\<lambda>r. r < k) (filter P [0..<n])) \<le> (k :: nat)"
proof -
  have "distinct (filter (\<lambda>r. r < k) (filter P [0..<n]))"
    by simp
  then have "length (filter (\<lambda>r. r < k) (filter P [0..<n]))
          = card (set (filter (\<lambda>r. r < k) (filter P [0..<n])))"
    by (rule distinct_card [symmetric])
  also have "\<dots> \<le> card {..<k}"
    by (rule card_mono) auto
  finally show ?thesis by simp
qed

lemma ndi_label_le:
  assumes "x \<in> set (ndi_label selem sh xs)"
  shows "x \<le> int (length xs)"
proof -
  obtain p where p: "p < length xs" and x: "x = ndi_label selem sh xs ! p"
    using assms by (auto simp: in_set_conv_nth)
  let ?E = "neighbours selem sh xs"
  let ?k = "length (filter (\<lambda>r. r < root ?E p)
          (filter (\<lambda>r. xs ! r \<and> root ?E r = r) [0..<length xs]))"
  have "?k \<le> root ?E p"
    by (rule length_filter_below)
  also have "\<dots> \<le> p"
    by (rule root_le)
  finally have k: "?k < length xs"
    using p by simp
  have "x = (if xs ! p then 1 + int ?k else 0)"
    unfolding x by (rule ndi_label_nth [OF p])
  then show ?thesis
    using k by (cases "xs ! p") simp_all
qed

lemma label_map_bool_bounds:
  assumes "dtype (heap w ! ar) = DBool" and "x \<in> set (label_map w ar ar c)"
  shows "0 \<le> x \<and> x \<le> int (length (label_map w ar ar c))"
  using assms ndi_label_nonneg [of x] ndi_label_le [of x]
  by (auto simp: label_map_def)

lemma ndi_label_eq_iff:
  assumes sym: "sym (set (neighbours selem sh xs))"
    and p: "p < length xs" "xs ! p" and q: "q < length xs" "xs ! q"
  shows "ndi_label selem sh xs ! p = ndi_label selem sh xs ! q
           \<longleftrightarrow> (p, q) \<in> (set (neighbours selem sh xs))\<^sup>*"
proof -
  let ?E = "neighbours selem sh xs"
  let ?roots = "filter (\<lambda>r. xs ! r \<and> root ?E r = r) [0..<length xs]"
  have in_roots: "root ?E a \<in> set ?roots" if "a < length xs" "xs ! a" for a
    using reach_foreground [OF root_reach that] root_idem [OF sym] by simp
  have "ndi_label selem sh xs ! p = ndi_label selem sh xs ! q
          \<longleftrightarrow> length (filter (\<lambda>r. r < root ?E p) ?roots) = length (filter (\<lambda>r. r < root ?E q) ?roots)"
    using p q by (simp add: ndi_label_nth)
  also have "\<dots> \<longleftrightarrow> root ?E p = root ?E q"
    using rank_inj [OF in_roots [OF p] in_roots [OF q]] by auto
  also have "\<dots> \<longleftrightarrow> (p, q) \<in> (set ?E)\<^sup>*"
    by (rule root_eq_iff [OF sym])
  finally show ?thesis .
qed

lemma count_label_component:
  assumes sym: "sym (set (neighbours selem sh xs))"
    and p: "p < length xs" "xs ! p"
  shows "count_list (ndi_label selem sh xs) (ndi_label selem sh xs ! p)
           = card (component selem sh xs p)"
proof -
  let ?L = "ndi_label selem sh xs"
  have "{i. i < length ?L \<and> ?L ! p = ?L ! i} = component selem sh xs p"
  proof (rule set_eqI)
    fix i
    show "i \<in> {i. i < length ?L \<and> ?L ! p = ?L ! i} \<longleftrightarrow> i \<in> component selem sh xs p"
    proof (cases "i < length xs \<and> xs ! i")
      case True
      then show ?thesis
        using ndi_label_eq_iff [OF sym p, of i] by (simp add: component_def connected_def)
    next
      case False
      then have "i < length xs \<Longrightarrow> ?L ! i = 0 \<and> ?L ! p \<noteq> 0"
        using p by (simp add: ndi_label_zero_iff)
      then show ?thesis
        using False by (auto simp: component_def)
    qed
  qed
  then show ?thesis
    by (simp add: count_list_eq_length_filter length_filter_conv_card)
qed

lemma component_same:
  assumes sym: "sym (set (neighbours selem sh xs))"
    and "q \<in> component selem sh xs p"
  shows "component selem sh xs q = component selem sh xs p"
proof -
  have pq: "(p, q) \<in> (set (neighbours selem sh xs))\<^sup>*"
    using assms(2) by (simp add: component_def connected_def)
  then have qp: "(q, p) \<in> (set (neighbours selem sh xs))\<^sup>*"
    using sym_rtrancl [OF sym] by (auto dest: symD)
  show ?thesis
    using pq qp by (auto simp: component_def connected_def intro: rtrancl_trans)
qed

lemma component_flood_fill:
  "p < length xs \<Longrightarrow> xs ! p \<Longrightarrow>
   component selem sh xs p = set (flood_fill (neighbours selem sh xs) [p])"
  by (simp add: component_closure set_flood_fill)

lemma component_bounds:
  "q \<in> component selem sh xs p \<Longrightarrow> q < length xs \<and> xs ! q"
  by (simp add: component_def)

text \<open>
  For a boolean array the histogram entry of a pixel's label is the size of the pixel's
  component.
\<close>

lemma histogram_component:
  assumes b: "dtype (heap w ! ar) = DBool"
    and h: "bincount (max_elems w) (free_elems w) (label_map w ar ar c) = Inr h"
    and q: "q < length (data (heap w ! ar))" "data (heap w ! ar) ! q \<noteq> 0"
  shows "h ! nat (label_map w ar ar c ! q) =
           card (component (generate_binary_structure (ndim (heap w ! ar)) c)
                   (shape (heap w ! ar)) (foreground (heap w ! ar)) q)"
proof -
  let ?S = "generate_binary_structure (ndim (heap w ! ar)) c"
  let ?xs = "foreground (heap w ! ar)"
  let ?L = "ndi_label ?S (shape (heap w ! ar)) ?xs"
  have L: "label_map w ar ar c = ?L"
    using b by (simp add: label_map_def)
  have fg: "q < length ?xs" "?xs ! q"
    using q by (simp_all add: foreground_def)
  have "?L ! q \<in> set ?L"
    using fg(1) by simp
  then have "h ! nat (?L ! q) = count_list ?L (?L ! q)"
    using bincount_Inr [OF h [unfolded L]] by simp
  also have "\<dots> = card (component ?S (shape (heap w ! ar)) ?xs q)"
    by (rule count_label_component [OF sym_neighbours fg])
  finally show ?thesis by (simp add: L)
qed

section \<open>The claims\<close>

text \<open>
  C1, as the code has it. For a boolean array and \<open>max_size \<noteq> 0\<close> the function returns,
  and for every foreground pixel \<open>p\<close>: when the component of \<open>p\<close> has more than
  \<open>max_size\<close> pixels, all its pixels are zero in the returned array; when it has at most
  \<open>max_size\<close> pixels, all its pixels keep the input's value.
\<close>

theorem big_components_removed:
  assumes "ar < length (heap w)"
    and "dtype (heap w ! ar) = DBool"
    and "max_size \<noteq> 0"
    and "p < length (data (heap w ! ar))"
    and "data (heap w ! ar) ! p \<noteq> 0"
  shows "\<exists>out w'.
           remove_big_objects w ar max_size connectivity in_place = (Inr out, w') \<and>
           length (data (heap w' ! out)) = length (data (heap w ! ar)) \<and>
           (\<forall>q \<in> component (generate_binary_structure (ndim (heap w ! ar)) connectivity)
                   (shape (heap w ! ar)) (foreground (heap w ! ar)) p.
              data (heap w' ! out) ! q =
                (if max_size < int (card (component
                        (generate_binary_structure (ndim (heap w ! ar)) connectivity)
                        (shape (heap w ! ar)) (foreground (heap w ! ar)) p))
                 then 0 else data (heap w ! ar) ! q))"
proof -
  let ?S = "generate_binary_structure (ndim (heap w ! ar)) connectivity"
  let ?sh = "shape (heap w ! ar)"
  let ?xs = "foreground (heap w ! ar)"
  let ?L = "label_map w ar ar connectivity"
  let ?r = "remove_big_objects w ar max_size connectivity in_place"
  have sup: "dtype (heap w ! ar) = DBool \<or> dtype (heap w ! ar) = DInt"
    using assms(2) by simp
  have "\<forall>x \<in> set ?L. 0 \<le> x \<and>
          (x \<le> int (length ?L) \<or> (x < max_elems w \<and> x < free_elems w))"
    using label_map_bool_bounds [OF assms(2)] by blast
  then obtain h where h: "bincount (max_elems w) (free_elems w) ?L = Inr h"
    using bincount_total by blast
  have len: "length ?L = length (data (heap w ! ar))"
    by (rule length_label_map)
  note f = rbo_filtered [OF assms(1) sup assms(3) h, of in_place]
  obtain out w' where r: "?r = (Inr out, w')"
    using f(1) by (cases ?r) auto
  have l: "length (data (heap w' ! out)) = length (data (heap w ! ar))"
    using f r assms(1) by (auto simp: length_sieve [OF len])
  have el: "data (heap w' ! out) ! q =
              (if max_size < int (h ! nat (?L ! q)) then 0 else data (heap w ! ar) ! q)"
    if "q < length (data (heap w ! ar))" for q
    using f r assms(1) that by (auto simp: nth_sieve [OF len])
  have "data (heap w' ! out) ! q =
          (if max_size < int (card (component ?S ?sh ?xs p)) then 0 else data (heap w ! ar) ! q)"
    if q: "q \<in> component ?S ?sh ?xs p" for q
  proof -
    have qb: "q < length (data (heap w ! ar))" "data (heap w ! ar) ! q \<noteq> 0"
      using component_bounds [OF q] by (auto simp: foreground_def)
    have "h ! nat (?L ! q) = card (component ?S ?sh ?xs q)"
      by (rule histogram_component [OF assms(2) h qb])
    also have "component ?S ?sh ?xs q = component ?S ?sh ?xs p"
      by (rule component_same [OF sym_neighbours q])
    finally show ?thesis using el [OF qb(1)] by simp
  qed
  then show ?thesis using r l by blast
qed

theorem big_components_removed_witness:
  "0 < length (heap example_world) \<and>
   dtype (heap example_world ! 0) = DBool \<and>
   (5::int) \<noteq> 0 \<and>
   5 < length (data (heap example_world ! 0)) \<and>
   data (heap example_world ! 0) ! 5 \<noteq> 0 \<and>
   (\<exists>out w'.
           remove_big_objects example_world 0 5 1 False = (Inr out, w') \<and>
           length (data (heap w' ! out)) = length (data (heap example_world ! 0)) \<and>
           (\<forall>q \<in> component (generate_binary_structure (ndim (heap example_world ! 0)) 1)
                   (shape (heap example_world ! 0)) (foreground (heap example_world ! 0)) 5.
              data (heap w' ! out) ! q =
                (if 5 < int (card (component
                        (generate_binary_structure (ndim (heap example_world ! 0)) 1)
                        (shape (heap example_world ! 0)) (foreground (heap example_world ! 0)) 5))
                 then 0 else data (heap example_world ! 0) ! q)))"
proof -
  have a: "0 < length (heap example_world)"
    by (simp add: example_world_def)
  have b: "dtype (heap example_world ! 0) = DBool"
    by (simp add: example_world_def bool_image_def)
  have c: "(5::int) \<noteq> 0" by simp
  have d: "5 < length (data (heap example_world ! 0))"
    by (simp add: example_world_def bool_image_def)
  have e: "data (heap example_world ! 0) ! 5 \<noteq> 0"
    by (simp add: example_world_def bool_image_def)
  show ?thesis
    using a b c d e big_components_removed [OF a b c d e, of 1 False] by blast
qed

text \<open>
  Against C1 as stated, on the docstring's image with \<open>max_size = 5\<close>: the component of
  pixel 3 has one pixel (at most \<open>max_size\<close>) and is still there, the component of pixel 5
  has six pixels (more than \<open>max_size\<close>) and is zeroed.
\<close>

theorem small_removed_big_kept_counterexample:
  "fst (remove_big_objects example_world 0 5 1 False) = Inr 4 \<and>
   card (component (generate_binary_structure 2 1) [3, 5] (foreground bool_image) 3) = 1 \<and>
   data (heap (snd (remove_big_objects example_world 0 5 1 False)) ! 4) ! 3 = 1 \<and>
   card (component (generate_binary_structure 2 1) [3, 5] (foreground bool_image) 5) = 6 \<and>
   data bool_image ! 5 = 1 \<and>
   data (heap (snd (remove_big_objects example_world 0 5 1 False)) ! 4) ! 5 = 0"
proof -
  have fg: "3 < length (foreground bool_image)" "foreground bool_image ! 3"
    "5 < length (foreground bool_image)" "foreground bool_image ! 5"
    by (simp_all add: foreground_def bool_image_def)
  have c3: "card (component (generate_binary_structure 2 1) [3, 5] (foreground bool_image) 3) = 1"
    unfolding component_flood_fill [OF fg(1,2)] by code_simp
  have c5: "card (component (generate_binary_structure 2 1) [3, 5] (foreground bool_image) 5) = 6"
    unfolding component_flood_fill [OF fg(3,4)] by code_simp
  have r: "remove_big_objects example_world 0 5 1 False =
     (Inr 4, example_world\<lparr>heap := heap example_world @
        [bool_image\<lparr>data := [0, 0, 0, 1, 0,  0, 0, 0, 0, 0,  0, 0, 0, 0, 1]\<rparr>]\<rparr>)"
    by code_simp
  have d: "data bool_image ! 5 = 1"
    by (simp add: bool_image_def)
  show ?thesis
    unfolding r using c3 c5 d by (simp add: example_world_def)
qed

text \<open>
  Against C2 as stated: an integer array with the non-negative labels 1 and \<open>2^62\<close> is a
  supported input, and with \<open>max_size > 0\<close> (1 in place, 64 on a copy) the function
  raises a \<open>ValueError\<close> instead of returning an array: the histogram would need
  \<open>2^62 + 1\<close> bins. The input is left as it was.
\<close>

theorem huge_label_counterexample:
  "dtype (heap huge_label_world ! 0) = DInt \<and>
   list_all (\<lambda>x. 0 \<le> x) (data (heap huge_label_world ! 0)) \<and>
   remove_big_objects huge_label_world 0 1 1 True = (Inl ValueError, huge_label_world) \<and>
   fst (remove_big_objects huge_label_world 0 64 1 False) = Inl ValueError \<and>
   heap (snd (remove_big_objects huge_label_world 0 64 1 False)) ! 0 = huge_label_image"
proof -
  have h: "heap huge_label_world ! 0 = huge_label_image"
    by (simp add: huge_label_world_def)
  have l: "label_map huge_label_world 0 0 1 = [1, 4611686018427387904]"
    by (simp add: label_map_def h huge_label_image_def)
  have b: "bincount (max_elems huge_label_world) (free_elems huge_label_world)
          (label_map huge_label_world 0 0 1) = Inl ValueError"
    unfolding l
    by (rule bincount_too_long [of _ 4611686018427387904]) (simp_all add: huge_label_world_def)
  have a: "0 < length (heap huge_label_world)"
    by (simp add: huge_label_world_def)
  have s: "dtype (heap huge_label_world ! 0) = DBool \<or> dtype (heap huge_label_world ! 0) = DInt"
    by (simp add: h huge_label_image_def)
  have t: "remove_big_objects huge_label_world 0 1 1 True = (Inl ValueError, huge_label_world)"
    using rbo_error [OF a s _ b, of 1 True] by simp
  have f: "remove_big_objects huge_label_world 0 64 1 False
             = (Inl ValueError, snd (copy huge_label_world 0))"
    using rbo_error [OF a s _ b, of 64 False] by simp
  show ?thesis
    using t f a by (simp add: h huge_label_image_def nth_append)
qed

text \<open>
  C2, as the code has it. Take a supported array and \<open>max_size > 0\<close>, and let the labels
  be what \<open>ndi_label\<close> gives for a boolean array and the elements themselves for an
  integer array. When the labels of an integer array are non-negative and each of them
  is at most the number of elements or below both limits of the world (so that the
  histogram can be allocated), the function returns, and the returned array is zero
  exactly at the pixels whose label occurs more than \<open>max_size\<close> times among the labels;
  every other pixel has the input's value.
\<close>

theorem too_big_labels_zeroed:
  fixes w :: world and ar :: nat and connectivity :: int
  defines "L \<equiv> (if dtype (heap w ! ar) = DBool
                 then ndi_label (generate_binary_structure (ndim (heap w ! ar)) connectivity)
                        (shape (heap w ! ar)) (foreground (heap w ! ar))
                 else data (heap w ! ar))"
  assumes "ar < length (heap w)"
    and "dtype (heap w ! ar) = DBool \<or> dtype (heap w ! ar) = DInt"
    and "0 < max_size"
    and "dtype (heap w ! ar) = DInt \<longrightarrow>
           (\<forall>x \<in> set (data (heap w ! ar)).
              0 \<le> x \<and> (x \<le> int (length (data (heap w ! ar))) \<or>
                         (x < max_elems w \<and> x < free_elems w)))"
  shows "\<exists>out w'.
           remove_big_objects w ar max_size connectivity in_place = (Inr out, w') \<and>
           length (data (heap w' ! out)) = length (data (heap w ! ar)) \<and>
           (\<forall>i < length (data (heap w ! ar)).
              data (heap w' ! out) ! i =
                (if max_size < int (count_list L (L ! i)) then 0
                 else data (heap w ! ar) ! i))"
proof -
  let ?r = "remove_big_objects w ar max_size connectivity in_place"
  have L: "label_map w ar ar connectivity = L"
    by (simp add: label_map_def L_def)
  have len: "length L = length (data (heap w ! ar))"
    using length_label_map [of w ar connectivity] by (simp add: L)
  have "\<forall>x \<in> set L. 0 \<le> x \<and> (x \<le> int (length L) \<or> (x < max_elems w \<and> x < free_elems w))"
  proof (cases "dtype (heap w ! ar) = DBool")
    case True
    then show ?thesis
      using label_map_bool_bounds [of w ar _ connectivity] by (simp add: L)
  next
    case False
    then have "L = data (heap w ! ar)"
      by (simp add: L_def)
    then show ?thesis
      using False assms(3,5) by auto
  qed
  then obtain h where h: "bincount (max_elems w) (free_elems w) L = Inr h"
    using bincount_total by blast
  have m: "max_size \<noteq> 0" using assms(4) by simp
  note f = rbo_filtered [OF assms(2,3) m h [folded L], of in_place]
  obtain out w' where r: "?r = (Inr out, w')"
    using f(1) by (cases ?r) auto
  have "length (data (heap w' ! out)) = length (data (heap w ! ar))"
    using f r assms(2) by (auto simp: L length_sieve [OF len])
  moreover have "data (heap w' ! out) ! i =
                (if max_size < int (count_list L (L ! i)) then 0 else data (heap w ! ar) ! i)"
    if i: "i < length (data (heap w ! ar))" for i
  proof -
    have "L ! i \<in> set L"
      using i len by simp
    then have c: "h ! nat (L ! i) = count_list L (L ! i)"
      using bincount_Inr [OF h] by simp
    have "data (heap w' ! out) ! i =
            (if max_size < int (h ! nat (L ! i)) then 0 else data (heap w ! ar) ! i)"
      using f r assms(2) i by (auto simp: L nth_sieve [OF len])
    then show ?thesis by (simp add: c)
  qed
  ultimately show ?thesis using r by blast
qed

theorem too_big_labels_zeroed_witness:
  "1 < length (heap example_world) \<and>
   (dtype (heap example_world ! 1) = DBool \<or> dtype (heap example_world ! 1) = DInt) \<and>
   (0::int) < 1 \<and>
   list_all (\<lambda>x. 0 \<le> x \<and> (x \<le> int (length (data (heap example_world ! 1))) \<or>
                  (x < max_elems example_world \<and> x < free_elems example_world)))
     (data (heap example_world ! 1)) \<and>
   remove_big_objects example_world 1 1 1 False =
     (Inr 4, example_world\<lparr>heap := heap example_world @
        [int_image\<lparr>data := [0, 0, 2,  0, 0, 0]\<rparr>]\<rparr>) \<and>
   data (heap example_world ! 1) = [1, 1, 2,  0, 3, 3] \<and>
   map (\<lambda>l. count_list (data (heap example_world ! 1)) l) (data (heap example_world ! 1))
     = [2, 2, 1,  1, 2, 2]"
proof -
  have a: "1 < length (heap example_world)"
    by (simp add: example_world_def)
  have b: "dtype (heap example_world ! 1) = DBool \<or> dtype (heap example_world ! 1) = DInt"
    by (simp add: example_world_def int_image_def)
  have c: "(0::int) < 1" by simp
  have d: "list_all (\<lambda>x. 0 \<le> x \<and> (x \<le> int (length (data (heap example_world ! 1))) \<or>
                  (x < max_elems example_world \<and> x < free_elems example_world)))
     (data (heap example_world ! 1))"
    by (simp add: example_world_def int_image_def)
  then have d': "dtype (heap example_world ! 1) = DInt \<longrightarrow>
           (\<forall>x \<in> set (data (heap example_world ! 1)).
              0 \<le> x \<and> (x \<le> int (length (data (heap example_world ! 1))) \<or>
                         (x < max_elems example_world \<and> x < free_elems example_world)))"
    by (simp add: list_all_iff)
  have e: "data (heap example_world ! 1) = [1, 1, 2,  0, 3, 3]"
    by (simp add: example_world_def int_image_def)
  have ne: "dtype (heap example_world ! 1) \<noteq> DBool"
    by (simp add: example_world_def int_image_def)
  obtain out w' where r: "remove_big_objects example_world 1 1 1 False = (Inr out, w')"
    and el: "\<forall>i < length (data (heap example_world ! 1)).
              data (heap w' ! out) ! i =
                (if 1 < int (count_list (data (heap example_world ! 1))
                               (data (heap example_world ! 1) ! i)) then 0
                 else data (heap example_world ! 1) ! i)"
    and len: "length (data (heap w' ! out)) = length (data (heap example_world ! 1))"
    using too_big_labels_zeroed [OF a b c d', of 1 False] ne by auto
  have r': "remove_big_objects example_world 1 1 1 False =
     (Inr 4, example_world\<lparr>heap := heap example_world @
        [int_image\<lparr>data := [0, 0, 2,  0, 0, 0]\<rparr>]\<rparr>)"
    by code_simp
  have f: "map (\<lambda>l. count_list (data (heap example_world ! 1)) l) (data (heap example_world ! 1))
     = [2, 2, 1,  1, 2, 2]"
    unfolding e by simp
  show ?thesis
    using a b c d r r' el len e f by simp
qed

text \<open>
  Against C3 as stated: on the docstring's image with \<open>max_size = 6\<close> and connectivity 1
  the isolated pixels at flat positions 3 and 14 are not zeroed, so the returned array
  is not the image with only the 6-pixel component.
\<close>

theorem docstring_example_counterexample:
  "fst (remove_big_objects example_world 0 6 1 False) = Inr 4 \<and>
   data (heap (snd (remove_big_objects example_world 0 6 1 False)) ! 4) ! 3 = 1 \<and>
   data (heap (snd (remove_big_objects example_world 0 6 1 False)) ! 4) ! 14 = 1 \<and>
   data (heap (snd (remove_big_objects example_world 0 6 1 False)) ! 4)
     \<noteq> [0, 0, 0, 0, 0,  1, 1, 1, 0, 0,  1, 1, 1, 0, 0]"
  by code_simp

text \<open>
  C3, as the code has it. On the docstring's image with \<open>max_size = 6\<close> and connectivity 1
  the labels are 1 and 3 for the isolated pixels and 2 for the 6-pixel component, the
  histogram is \<open>[7, 1, 6, 1]\<close>, only the background count exceeds 6, and the returned
  array is a copy equal to the input: the two isolated pixels and the 6-pixel component
  are all kept.
\<close>

theorem docstring_example_unchanged:
  "label_map example_world 0 0 1 = [0, 0, 0, 1, 0,  2, 2, 2, 0, 0,  2, 2, 2, 0, 3] \<and>
   bincount (max_elems example_world) (free_elems example_world)
     (label_map example_world 0 0 1) = Inr [7, 1, 6, 1] \<and>
   remove_big_objects example_world 0 6 1 False =
     (Inr 4, example_world\<lparr>heap := heap example_world @ [bool_image]\<rparr>)"
proof -
  have l: "label_map example_world 0 0 1 = [0, 0, 0, 1, 0,  2, 2, 2, 0, 0,  2, 2, 2, 0, 3]"
    by code_simp
  have b: "bincount (max_elems example_world) (free_elems example_world)
             [0, 0, 0, 1, 0,  2, 2, 2, 0, 0,  2, 2, 2, 0, 3] = Inr [7, 1, 6, 1]"
    by code_simp
  have r: "remove_big_objects example_world 0 6 1 False =
     (Inr 4, example_world\<lparr>heap := heap example_world @ [bool_image]\<rparr>)"
    by code_simp
  show ?thesis
    using l b r by simp
qed

text \<open>
  C4. With a supported array and \<open>max_size = 0\<close> the function returns the working buffer
  as it is: the returned array equals the input, element for element, and the input
  object is not changed.
\<close>

theorem max_size_zero_noop:
  assumes "ar < length (heap w)"
    and "dtype (heap w ! ar) = DBool \<or> dtype (heap w ! ar) = DInt"
  shows "\<exists>out w'.
           remove_big_objects w ar 0 connectivity in_place = (Inr out, w') \<and>
           heap w' ! out = heap w ! ar \<and> data (heap w' ! out) = data (heap w ! ar) \<and>
           heap w' ! ar = heap w ! ar"
  using assms rbo_shortcut [OF assms(2), of connectivity in_place]
  by (auto simp: nth_append)

theorem max_size_zero_noop_witness:
  "0 < length (heap example_world) \<and>
   (dtype (heap example_world ! 0) = DBool \<or> dtype (heap example_world ! 0) = DInt) \<and>
   (\<exists>out w'.
           remove_big_objects example_world 0 0 1 True = (Inr out, w') \<and>
           heap w' ! out = heap example_world ! 0 \<and>
           data (heap w' ! out) = data (heap example_world ! 0) \<and>
           heap w' ! 0 = heap example_world ! 0)"
proof -
  have a: "0 < length (heap example_world)"
    by (simp add: example_world_def)
  have b: "dtype (heap example_world ! 0) = DBool \<or> dtype (heap example_world ! 0) = DInt"
    by (simp add: example_world_def bool_image_def)
  show ?thesis
    using a b max_size_zero_noop [OF a b, of 1 True] by blast
qed

text \<open>
  C5 on the code: at \<open>max_size = 0\<close> the function with the early return gives back a copy
  equal to the docstring's image, and the function without it gives back the image with
  every pixel zeroed (each count, being positive, exceeds 0).
\<close>

theorem shortcut_changes_result:
  "remove_big_objects example_world 0 0 1 False =
     (Inr 4, example_world\<lparr>heap := heap example_world @ [bool_image]\<rparr>) \<and>
   remove_big_objects_no_shortcut example_world 0 0 1 False =
     (Inr 4, example_world\<lparr>heap := heap example_world @
        [bool_image\<lparr>data := [0, 0, 0, 0, 0,  0, 0, 0, 0, 0,  0, 0, 0, 0, 0]\<rparr>]\<rparr>) \<and>
   remove_big_objects example_world 0 0 1 False
     \<noteq> remove_big_objects_no_shortcut example_world 0 0 1 False"
proof -
  have a: "remove_big_objects example_world 0 0 1 False =
     (Inr 4, example_world\<lparr>heap := heap example_world @ [bool_image]\<rparr>)"
    by code_simp
  have b: "remove_big_objects_no_shortcut example_world 0 0 1 False =
     (Inr 4, example_world\<lparr>heap := heap example_world @
        [bool_image\<lparr>data := [0, 0, 0, 0, 0,  0, 0, 0, 0, 0,  0, 0, 0, 0, 0]\<rparr>]\<rparr>)"
    by code_simp
  have c: "example_world\<lparr>heap := heap example_world @ [bool_image]\<rparr> \<noteq>
     example_world\<lparr>heap := heap example_world @
        [bool_image\<lparr>data := [0, 0, 0, 0, 0,  0, 0, 0, 0, 0,  0, 0, 0, 0, 0]\<rparr>]\<rparr>"
    by (simp add: example_world_def bool_image_def)
  show ?thesis
    using a b c by simp
qed

text \<open>
  C6. When the function returns, \<open>in_place = True\<close> gives back the reference it was given
  (the input object is the one written), and \<open>in_place = False\<close> gives back a new object
  and leaves the input object as it was. No other object of the heap changes.
\<close>

theorem in_place_identity:
  assumes "ar < length (heap w)"
    and "remove_big_objects w ar max_size connectivity in_place = (Inr out, w')"
  shows "(in_place \<longrightarrow> out = ar) \<and>
         (\<not> in_place \<longrightarrow> out \<noteq> ar \<and> out = length (heap w) \<and> heap w' ! ar = heap w ! ar) \<and>
         (\<forall>b < length (heap w). b \<noteq> out \<longrightarrow> heap w' ! b = heap w ! b)"
  using assms rbo_returns(1,3) [OF assms] by auto

theorem in_place_identity_witness:
  "0 < length (heap example_world) \<and>
   remove_big_objects example_world 0 5 1 False =
     (Inr 4, example_world\<lparr>heap := heap example_world @
        [bool_image\<lparr>data := [0, 0, 0, 1, 0,  0, 0, 0, 0, 0,  0, 0, 0, 0, 1]\<rparr>]\<rparr>) \<and>
   (4::nat) \<noteq> 0 \<and> 4 = length (heap example_world) \<and>
   heap (example_world\<lparr>heap := heap example_world @
        [bool_image\<lparr>data := [0, 0, 0, 1, 0,  0, 0, 0, 0, 0,  0, 0, 0, 0, 1]\<rparr>]\<rparr>) ! 0
     = heap example_world ! 0 \<and>
   remove_big_objects example_world 0 5 1 True =
     (Inr 0, example_world\<lparr>heap := (heap example_world)
        [0 := bool_image\<lparr>data := [0, 0, 0, 1, 0,  0, 0, 0, 0, 0,  0, 0, 0, 0, 1]\<rparr>]\<rparr>)"
proof -
  have a: "0 < length (heap example_world)"
    by (simp add: example_world_def)
  have b: "remove_big_objects example_world 0 5 1 False =
     (Inr 4, example_world\<lparr>heap := heap example_world @
        [bool_image\<lparr>data := [0, 0, 0, 1, 0,  0, 0, 0, 0, 0,  0, 0, 0, 0, 1]\<rparr>]\<rparr>)"
    by code_simp
  have c: "remove_big_objects example_world 0 5 1 True =
     (Inr 0, example_world\<lparr>heap := (heap example_world)
        [0 := bool_image\<lparr>data := [0, 0, 0, 1, 0,  0, 0, 0, 0, 0,  0, 0, 0, 0, 1]\<rparr>]\<rparr>)"
    by code_simp
  show ?thesis
    using a b c in_place_identity [OF a b] in_place_identity [OF a c] by simp
qed

text \<open>
  C7. The function raises a type error exactly when the element type of the input is
  neither boolean nor integer, and then nothing has been written or allocated: the
  world after the call is the world before it.
\<close>

theorem type_error_iff_unsupported:
  "(fst (remove_big_objects w ar max_size connectivity in_place) = Inl TypeError
      \<longleftrightarrow> \<not> (dtype (heap w ! ar) = DBool \<or> dtype (heap w ! ar) = DInt)) \<and>
   (fst (remove_big_objects w ar max_size connectivity in_place) = Inl TypeError
      \<longrightarrow> snd (remove_big_objects w ar max_size connectivity in_place) = w)"
proof (cases "dtype (heap w ! ar) = DBool \<or> dtype (heap w ! ar) = DInt")
  case False
  then show ?thesis
    by (simp add: rbo_unsupported)
next
  case True
  have "fst (filter_labels v a out max_size connectivity) \<noteq> Inl TypeError" for v a out
    by (auto simp: filter_labels_def Let_def split: sum.splits dest: bincount_error)
  then show ?thesis
    using True by (simp add: rbo_supported)
qed

theorem type_error_iff_unsupported_witness:
  "\<not> (dtype (heap example_world ! 3) = DBool \<or> dtype (heap example_world ! 3) = DInt) \<and>
   fst (remove_big_objects example_world 3 64 1 True) = Inl TypeError \<and>
   snd (remove_big_objects example_world 3 64 1 True) = example_world \<and>
   (dtype (heap example_world ! 1) = DBool \<or> dtype (heap example_world ! 1) = DInt) \<and>
   fst (remove_big_objects example_world 1 64 1 True) \<noteq> Inl TypeError"
proof -
  have a: "\<not> (dtype (heap example_world ! 3) = DBool \<or> dtype (heap example_world ! 3) = DInt)"
    by (simp add: example_world_def float_image_def)
  have b: "dtype (heap example_world ! 1) = DBool \<or> dtype (heap example_world ! 1) = DInt"
    by (simp add: example_world_def int_image_def)
  show ?thesis
    using a b type_error_iff_unsupported [of example_world 3 64 1 True]
      type_error_iff_unsupported [of example_world 1 64 1 True]
    by blast
qed

text \<open>
  C8. An integer array with a negative value and \<open>max_size > 0\<close> raises a value error.
  Nothing has been zeroed at that point: the input object and the working buffer (the
  input itself, or the copy at the end of the heap) both hold the input's elements.
\<close>

theorem negative_labels_value_error:
  assumes "ar < length (heap w)"
    and "dtype (heap w ! ar) = DInt"
    and "\<exists>x \<in> set (data (heap w ! ar)). x < 0"
    and "0 < max_size"
  shows "\<exists>w'. remove_big_objects w ar max_size connectivity in_place = (Inl ValueError, w') \<and>
           heap w' ! ar = heap w ! ar \<and>
           heap w' ! (if in_place then ar else length (heap w)) = heap w ! ar \<and>
           (\<forall>b < length (heap w). heap w' ! b = heap w ! b)"
proof -
  have sup: "dtype (heap w ! ar) = DBool \<or> dtype (heap w ! ar) = DInt"
    using assms(2) by simp
  have neg: "\<exists>x \<in> set (label_map w ar ar connectivity). x < 0"
    using assms(2,3) by (simp add: label_map_int)
  have m: "max_size \<noteq> 0" using assms(4) by simp
  show ?thesis
    using rbo_value_error [OF assms(1) sup m neg, of in_place] assms(1)
    by (auto simp: nth_append)
qed

theorem negative_labels_value_error_witness:
  "2 < length (heap example_world) \<and>
   dtype (heap example_world ! 2) = DInt \<and>
   (\<exists>x \<in> set (data (heap example_world ! 2)). x < 0) \<and>
   (0::int) < 1 \<and>
   (\<exists>w'. remove_big_objects example_world 2 1 1 False = (Inl ValueError, w') \<and>
           heap w' ! 2 = heap example_world ! 2 \<and>
           heap w' ! (if False then 2 else length (heap example_world)) = heap example_world ! 2 \<and>
           (\<forall>b < length (heap example_world). heap w' ! b = heap example_world ! b))"
proof -
  have a: "2 < length (heap example_world)"
    by (simp add: example_world_def)
  have b: "dtype (heap example_world ! 2) = DInt"
    by (simp add: example_world_def negative_image_def)
  have c: "\<exists>x \<in> set (data (heap example_world ! 2)). x < 0"
    by (simp add: example_world_def negative_image_def)
  have d: "(0::int) < 1" by simp
  show ?thesis
    using a b c d negative_labels_value_error [OF a b c d, of 1 False] by blast
qed

text \<open>
  C9. A returned array has the shape and the element type of the input (and as many
  elements), and every position that is zero in the input is zero in it.
\<close>

theorem shape_dtype_background_kept:
  assumes "ar < length (heap w)"
    and "remove_big_objects w ar max_size connectivity in_place = (Inr out, w')"
  shows "shape (heap w' ! out) = shape (heap w ! ar) \<and>
         dtype (heap w' ! out) = dtype (heap w ! ar) \<and>
         length (data (heap w' ! out)) = length (data (heap w ! ar)) \<and>
         (\<forall>i < length (data (heap w ! ar)).
            data (heap w ! ar) ! i = 0 \<longrightarrow> data (heap w' ! out) ! i = 0)"
  using rbo_returns(4,5,6,7) [OF assms] by auto

theorem shape_dtype_background_kept_witness:
  "1 < length (heap example_world) \<and>
   remove_big_objects example_world 1 1 1 True =
     (Inr 1, example_world\<lparr>heap := (heap example_world)
        [1 := int_image\<lparr>data := [0, 0, 2,  0, 0, 0]\<rparr>]\<rparr>) \<and>
   shape (heap (example_world\<lparr>heap := (heap example_world)
        [1 := int_image\<lparr>data := [0, 0, 2,  0, 0, 0]\<rparr>]\<rparr>) ! 1) = shape (heap example_world ! 1) \<and>
   dtype (heap (example_world\<lparr>heap := (heap example_world)
        [1 := int_image\<lparr>data := [0, 0, 2,  0, 0, 0]\<rparr>]\<rparr>) ! 1) = dtype (heap example_world ! 1) \<and>
   list_all2 (\<lambda>x y. x \<noteq> 0 \<or> y = 0)
     (data (heap example_world ! 1))
     (data (heap (example_world\<lparr>heap := (heap example_world)
        [1 := int_image\<lparr>data := [0, 0, 2,  0, 0, 0]\<rparr>]\<rparr>) ! 1))"
proof -
  have a: "1 < length (heap example_world)"
    by (simp add: example_world_def)
  have b: "remove_big_objects example_world 1 1 1 True =
     (Inr 1, example_world\<lparr>heap := (heap example_world)
        [1 := int_image\<lparr>data := [0, 0, 2,  0, 0, 0]\<rparr>]\<rparr>)"
    by code_simp
  have c: "list_all2 (\<lambda>x y. x \<noteq> 0 \<or> y = 0)
     (data (heap example_world ! 1))
     (data (heap (example_world\<lparr>heap := (heap example_world)
        [1 := int_image\<lparr>data := [0, 0, 2,  0, 0, 0]\<rparr>]\<rparr>) ! 1))"
    using shape_dtype_background_kept [OF a b] by (auto simp: list_all2_conv_all_nth)
  show ?thesis
    using a b c shape_dtype_background_kept [OF a b] by blast
qed

text \<open>
  C10. Every element of a returned array is the element of the input at that position
  or zero.
\<close>

theorem elements_kept_or_zeroed:
  assumes "ar < length (heap w)"
    and "remove_big_objects w ar max_size connectivity in_place = (Inr out, w')"
  shows "length (data (heap w' ! out)) = length (data (heap w ! ar)) \<and>
         (\<forall>i < length (data (heap w ! ar)).
            data (heap w' ! out) ! i = data (heap w ! ar) ! i \<or> data (heap w' ! out) ! i = 0)"
  using rbo_returns(6,7) [OF assms] by auto

theorem elements_kept_or_zeroed_witness:
  "1 < length (heap example_world) \<and>
   remove_big_objects example_world 1 1 1 False =
     (Inr 4, example_world\<lparr>heap := heap example_world @
        [int_image\<lparr>data := [0, 0, 2,  0, 0, 0]\<rparr>]\<rparr>) \<and>
   list_all2 (\<lambda>y x. y = x \<or> y = 0)
     (data (heap (example_world\<lparr>heap := heap example_world @
        [int_image\<lparr>data := [0, 0, 2,  0, 0, 0]\<rparr>]\<rparr>) ! 4))
     (data (heap example_world ! 1))"
proof -
  have a: "1 < length (heap example_world)"
    by (simp add: example_world_def)
  have b: "remove_big_objects example_world 1 1 1 False =
     (Inr 4, example_world\<lparr>heap := heap example_world @
        [int_image\<lparr>data := [0, 0, 2,  0, 0, 0]\<rparr>]\<rparr>)"
    by code_simp
  show ?thesis
    using a b elements_kept_or_zeroed [OF a b] by (simp add: list_all2_conv_all_nth)
qed

end
